theory Spec2Isabelle
  imports Complex_Main "HOL-Library.Word"
begin

unbundle bit_operations_syntax

section \<open>The Instruments trace importer: data model\<close>

text \<open>
  The importer is JavaScript. Thrown exceptions are values of the type \<open>error\<close>:
  \<open>Error msg\<close> is \<^verbatim>\<open>throw new Error(msg)\<close>, \<open>RangeError\<close> is the exception of a typed-array
  constructor given a buffer of the wrong size, and \<open>TruncatedRead pos\<close> is the failure of
  the binary reader on a read that does not fit into the buffer. A function that can
  throw returns \<open>error + 'a\<close>.
\<close>

datatype error = Error string | RangeError | TruncatedRead int

type_synonym byte = "8 word"

text \<open>Keys of a JavaScript \<^verbatim>\<open>Map\<close>: a string and a number are never the same key.\<close>

datatype jskey = KStr string | KNum nat

subsection \<open>Numbers printed as text\<close>

definition digit_char :: "nat \<Rightarrow> char" where
  "digit_char d = ''0123456789abcdef'' ! d"

text \<open>
  \<^verbatim>\<open>String(n)\<close> and \<^verbatim>\<open>n.toString(16)\<close> for a non-negative integer \<open>n\<close> (below \<open>10^21\<close> the
  decimal form has no exponent; every 64-bit address is).
\<close>

fun show_dec :: "nat \<Rightarrow> string" where
  "show_dec n = (if n < 10 then [digit_char n] else show_dec (n div 10) @ [digit_char (n mod 10)])"

fun show_hex :: "nat \<Rightarrow> string" where
  "show_hex n = (if n < 16 then [digit_char n] else show_hex (n div 16) @ [digit_char (n mod 16)])"

declare show_dec.simps [simp del]
declare show_hex.simps [simp del]

text \<open>
  \<^verbatim>\<open>function zeroPad(s, width) {
    return new Array(Math.max(width - s.length, 0) + 1).join('0') + s; }\<close>
  Joining \<open>n + 1\<close> empty slots with \<open>'0'\<close> gives \<open>n\<close> zeros; the subtraction is the
  truncating one of \<open>nat\<close>, which is \<^verbatim>\<open>Math.max(width - s.length, 0)\<close>.
\<close>

definition zeroPad :: "string \<Rightarrow> nat \<Rightarrow> string" where
  "zeroPad s width = replicate (width - length s) CHR ''0'' @ s"

subsection \<open>The binary plist magic header\<close>

definition charCodeAt :: "string \<Rightarrow> nat \<Rightarrow> nat" where
  "charCodeAt s i = of_char (s ! i)"

text \<open>\<open>bytes[i]\<close> of a \<^verbatim>\<open>Uint8Array\<close>: \<open>None\<close> is \<^verbatim>\<open>undefined\<close>, read past the end.\<close>

definition byteAt :: "byte list \<Rightarrow> nat \<Rightarrow> nat option" where
  "byteAt bytes i = (if i < length bytes then Some (unat (bytes ! i)) else None)"

text \<open>
  \<^verbatim>\<open>function parseBinaryPlist(bytes) {
    const text = 'bplist00';
    for (let i = 0; i < 8; i++) {
      if (bytes[i] !== text.charCodeAt(i)) {
        throw new Error('File is not a binary plist');
      }
    }
    return new BinaryPlistParser(new DataView(...)).parseRoot();
  }\<close>
  The class \<^verbatim>\<open>BinaryPlistParser\<close> is not part of the sources at hand: its \<^verbatim>\<open>parseRoot\<close> is the
  parameter \<open>parseRoot\<close>. The loop is the recursion \<open>magic_loop\<close> over \<open>i\<close>.
\<close>

fun magic_loop :: "byte list \<Rightarrow> nat list \<Rightarrow> bool" where
  "magic_loop bytes [] = True"
| "magic_loop bytes (i # is) =
     (if byteAt bytes i \<noteq> Some (charCodeAt ''bplist00'' i) then False
      else magic_loop bytes is)"

definition parseBinaryPlist :: "(byte list \<Rightarrow> error + 'v) \<Rightarrow> byte list \<Rightarrow> error + 'v" where
  "parseBinaryPlist parseRoot bytes =
     (if magic_loop bytes [0..<8] then parseRoot bytes
      else Inl (Error ''File is not a binary plist''))"

text \<open>The magic header as bytes.\<close>

definition bplist_magic :: "byte list" where
  "bplist_magic = map (\<lambda>c. of_nat (of_char c)) ''bplist00''"

section \<open>The profile assembler\<close>

subsection \<open>Samples and frames\<close>

text \<open>
  A sample as \<^verbatim>\<open>getRawSampleList\<close> pushes it, \<^verbatim>\<open>{ timestamp, threadID, backtraceID }\<close>, and a
  sample after \<^verbatim>\<open>importRunFromInstrumentsTrace\<close> has set its \<^verbatim>\<open>backtraceStack\<close>.
\<close>

record Sample =
  timestamp :: nat
  threadID :: nat
  backtraceID :: nat

record ResolvedSample = Sample +
  backtraceStack :: "nat list"

text \<open>
  \<^verbatim>\<open>FrameInfo\<close>: \<open>key\<close> is a string for a symbol and the number \<open>k\<close> itself for a raw
  address frame; \<open>file'\<close> (the property \<^verbatim>\<open>file\<close>) is \<open>None\<close> where it is not set.
\<close>

record FrameInfo =
  key :: jskey
  name :: string
  file' :: "string option"

text \<open>
  \<^verbatim>\<open>addressToFrameMap\<close> is a JavaScript \<^verbatim>\<open>Map\<close>, which iterates in insertion order: an
  association list with distinct keys. \<open>map_get\<close> is \<^verbatim>\<open>Map.get\<close> (\<open>None\<close> is
  \<^verbatim>\<open>undefined\<close>), \<open>map_set\<close> is \<^verbatim>\<open>Map.set\<close>: the value of a key that is present is
  replaced where it stands, a new key goes to the end.
\<close>

type_synonym ('k, 'v) jsmap = "('k \<times> 'v) list"

definition map_get :: "('k, 'v) jsmap \<Rightarrow> 'k \<Rightarrow> 'v option" where
  "map_get m k = map_of m k"

fun map_set :: "('k, 'v) jsmap \<Rightarrow> 'k \<Rightarrow> 'v \<Rightarrow> ('k, 'v) jsmap" where
  "map_set [] k v = [(k, v)]"
| "map_set ((k', v') # m) k v = (if k' = k then (k, v) # m else (k', v') # map_set m k v)"

subsection \<open>The columnar tables\<close>

text \<open>
  Modelled from the spec: \<^verbatim>\<open>UniqueStringArray\<close> (\<^verbatim>\<open>src/utils/unique-string-array\<close>, not
  part of the sources at hand), the string table that "assigns a stable integer to each
  distinct string": the strings in the order of their first interning, the index of a
  string being its position.
\<close>

type_synonym UniqueStringArray = "string list"

fun index_of :: "'a \<Rightarrow> 'a list \<Rightarrow> nat option" where
  "index_of x [] = None"
| "index_of x (y # ys) = (if x = y then Some 0 else map_option Suc (index_of x ys))"

definition indexForString :: "UniqueStringArray \<Rightarrow> string \<Rightarrow> nat \<times> UniqueStringArray" where
  "indexForString tab s =
     (case index_of s tab of
        Some i \<Rightarrow> (i, tab)
      | None \<Rightarrow> (length tab, tab @ [s]))"

record FuncTable =
  func_name :: "nat list"
  func_fileName :: "nat list"
  func_isJS :: "bool list"
  func_resource :: "int list"
  func_lineNumber :: "nat option list"
  func_columnNumber :: "nat option list"
  func_length :: nat

record FrameTable =
  frame_func :: "nat list"
  frame_category :: "nat list"
  frame_address :: "nat list"
  frame_implementation :: "nat option list"
  frame_line :: "nat option list"
  frame_column :: "nat option list"
  frame_length :: nat

text \<open>
  In the stack table \<open>None\<close> in \<open>stack_prefix\<close> is \<^verbatim>\<open>null\<close>, the prefix of the root; in
  \<open>stack_frame\<close> it is the \<^verbatim>\<open>undefined\<close> of a \<^verbatim>\<open>frameKeyToIndex.get\<close> that finds nothing.
\<close>

record StackTable =
  stack_prefix :: "nat option list"
  stack_frame :: "nat option list"
  stack_category :: "nat list"
  stack_length :: nat

record SamplesTable =
  samples_stack :: "nat option list"
  samples_time :: "real list"
  samples_responsiveness :: "nat option list"
  samples_length :: nat

text \<open>The fields of a thread carry the prefix \<open>thread_\<close>.\<close>

record Thread =
  thread_name :: string
  thread_funcTable :: FuncTable
  thread_frameTable :: FrameTable
  thread_stackTable :: StackTable
  thread_stringTable :: UniqueStringArray
  thread_samples :: SamplesTable

text \<open>
  Modelled from the spec: \<^verbatim>\<open>getEmptyThread\<close> (\<^verbatim>\<open>profile-logic/data-structures\<close>, not part
  of the sources at hand). The tables are "append-only arrays keyed by integer index;
  each table's length is the authoritative row count": the empty thread has no row in
  any table and no string in its string table.
\<close>

definition getEmptyThread :: Thread where
  "getEmptyThread =
     \<lparr> thread_name = [],
       thread_funcTable = \<lparr> func_name = [], func_fileName = [], func_isJS = [], func_resource = [],
                     func_lineNumber = [], func_columnNumber = [], func_length = 0 \<rparr>,
       thread_frameTable = \<lparr> frame_func = [], frame_category = [], frame_address = [],
                      frame_implementation = [], frame_line = [], frame_column = [],
                      frame_length = 0 \<rparr>,
       thread_stackTable = \<lparr> stack_prefix = [], stack_frame = [], stack_category = [],
                      stack_length = 0 \<rparr>,
       thread_stringTable = [],
       thread_samples = \<lparr> samples_stack = [], samples_time = [], samples_responsiveness = [],
                   samples_length = 0 \<rparr> \<rparr>"

subsection \<open>Rows of the tables\<close>

text \<open>
  \<^verbatim>\<open>function getOrCreateFunc(funcTable, funcKeyToIndex, stringTable, name, fileName, funcKey) {
    let indexToFunc = -1;
    if (funcKeyToIndex.has(funcKey)) {
      indexToFunc = funcKeyToIndex.get(funcKey);
    } else {
      funcKeyToIndex.set(funcKey, funcTable.length);
      funcTable.name.push(stringTable.indexForString(name));
      funcTable.fileName.push(stringTable.indexForString(fileName));
      funcTable.isJS.push(false);
      funcTable.resource.push(-1);
      funcTable.lineNumber.push(null);
      funcTable.columnNumber.push(null);
      indexToFunc = funcTable.length;
      funcTable.length++;
    }
    return indexToFunc;
  }\<close>
  The three objects the function mutates are returned after the index.
\<close>

definition getOrCreateFunc ::
  "FuncTable \<Rightarrow> (jskey \<rightharpoonup> nat) \<Rightarrow> UniqueStringArray \<Rightarrow> string \<Rightarrow> string \<Rightarrow> jskey
   \<Rightarrow> nat \<times> FuncTable \<times> (jskey \<rightharpoonup> nat) \<times> UniqueStringArray" where
  "getOrCreateFunc funcTable funcKeyToIndex stringTable fname fileName funcKey =
     (case funcKeyToIndex funcKey of
        Some indexToFunc \<Rightarrow> (indexToFunc, funcTable, funcKeyToIndex, stringTable)
      | None \<Rightarrow>
          (let funcKeyToIndex' = funcKeyToIndex(funcKey \<mapsto> func_length funcTable);
               (n, stringTable1) = indexForString stringTable fname;
               (f, stringTable2) = indexForString stringTable1 fileName;
               indexToFunc = func_length funcTable;
               funcTable' = funcTable
                 \<lparr> func_name := func_name funcTable @ [n],
                   func_fileName := func_fileName funcTable @ [f],
                   func_isJS := func_isJS funcTable @ [False],
                   func_resource := func_resource funcTable @ [- 1],
                   func_lineNumber := func_lineNumber funcTable @ [None],
                   func_columnNumber := func_columnNumber funcTable @ [None],
                   func_length := func_length funcTable + 1 \<rparr>
           in (indexToFunc, funcTable', funcKeyToIndex', stringTable2)))"

text \<open>The text of a frame address in a template string: a string as it is, a number in decimal.\<close>

fun key_text :: "jskey \<Rightarrow> string" where
  "key_text (KStr s) = s"
| "key_text (KNum n) = show_dec n"

text \<open>
  \<^verbatim>\<open>function createFrame(frameTable, stringTable, frameKeyToIndex, indexToFunc, frameAddress) {
    frameTable.func.push(indexToFunc);
    frameTable.category.push(1);
    frameTable.address.push(stringTable.indexForString(`${frameAddress}`));
    frameTable.implementation.push(null);
    frameTable.line.push(null);
    frameTable.column.push(null);
    frameKeyToIndex.set(frameAddress, frameTable.length);
    frameTable.length++;
  }\<close>
\<close>

definition createFrame ::
  "FrameTable \<Rightarrow> UniqueStringArray \<Rightarrow> (jskey \<rightharpoonup> nat) \<Rightarrow> nat \<Rightarrow> jskey
   \<Rightarrow> FrameTable \<times> UniqueStringArray \<times> (jskey \<rightharpoonup> nat)" where
  "createFrame frameTable stringTable frameKeyToIndex indexToFunc frameAddress =
     (let (a, stringTable') = indexForString stringTable (key_text frameAddress);
          frameKeyToIndex' = frameKeyToIndex(frameAddress \<mapsto> frame_length frameTable);
          frameTable' = frameTable
            \<lparr> frame_func := frame_func frameTable @ [indexToFunc],
              frame_category := frame_category frameTable @ [1],
              frame_address := frame_address frameTable @ [a],
              frame_implementation := frame_implementation frameTable @ [None],
              frame_line := frame_line frameTable @ [None],
              frame_column := frame_column frameTable @ [None],
              frame_length := frame_length frameTable + 1 \<rparr>
      in (frameTable', stringTable', frameKeyToIndex'))"

text \<open>
  \<^verbatim>\<open>function createStack(stackTable, stringTable, stackKeyToIndex, stackKey, parentIndex, frame) {
    stackTable.prefix.push(parentIndex);
    stackTable.frame.push(frame);
    stackKeyToIndex.set(stackKey, stackTable.length);
    stackTable.category.push(1);
    stackTable.length++;
  }\<close>
  The string table is not touched and is left out of the result.
\<close>

definition createStack ::
  "StackTable \<Rightarrow> UniqueStringArray \<Rightarrow> (string \<rightharpoonup> nat) \<Rightarrow> string \<Rightarrow> nat option \<Rightarrow> nat option
   \<Rightarrow> StackTable \<times> (string \<rightharpoonup> nat)" where
  "createStack stackTable stringTable stackKeyToIndex stackKey parentIndex frame =
     (stackTable
        \<lparr> stack_prefix := stack_prefix stackTable @ [parentIndex],
          stack_frame := stack_frame stackTable @ [frame],
          stack_category := stack_category stackTable @ [1],
          stack_length := stack_length stackTable + 1 \<rparr>,
      stackKeyToIndex(stackKey \<mapsto> stack_length stackTable))"

subsection \<open>One thread\<close>

text \<open>
  The loop of \<^verbatim>\<open>getProcessedThread\<close> over the shared frame map:
  \<^verbatim>\<open>for (const frameData of addressToFrameMap) {
    const frameMetaData = frameData[1];
    const frameAddress = frameData[0];
    const indexToFunc = getOrCreateFunc(funcTable, funcKeyToIndex, stringTable,
      frameMetaData.name, frameMetaData.file || '', frameMetaData.key);
    createFrame(frameTable, stringTable, frameKeyToIndex, indexToFunc, frameAddress);
  }\<close>
  \<^verbatim>\<open>frameMetaData.file || ''\<close> is the file when it is set, and the empty string otherwise
  (an empty file name is falsy and gives the empty string as well).
\<close>

record Tables =
  t_func :: FuncTable
  t_frame :: FrameTable
  t_strings :: UniqueStringArray
  t_funcKeyToIndex :: "jskey \<rightharpoonup> nat"
  t_frameKeyToIndex :: "jskey \<rightharpoonup> nat"

definition file_or_empty :: "FrameInfo \<Rightarrow> string" where
  "file_or_empty frameMetaData = (case file' frameMetaData of None \<Rightarrow> [] | Some f \<Rightarrow> f)"

definition addFrame :: "Tables \<Rightarrow> string \<Rightarrow> string \<Rightarrow> jskey \<Rightarrow> jskey \<Rightarrow> Tables" where
  "addFrame t fname fileName funcKey frameAddress =
     (let (indexToFunc, funcTable', funcKeyToIndex', stringTable1) =
            getOrCreateFunc (t_func t) (t_funcKeyToIndex t) (t_strings t) fname fileName funcKey;
          (frameTable', stringTable2, frameKeyToIndex') =
            createFrame (t_frame t) stringTable1 (t_frameKeyToIndex t) indexToFunc frameAddress
      in \<lparr> t_func = funcTable', t_frame = frameTable', t_strings = stringTable2,
           t_funcKeyToIndex = funcKeyToIndex', t_frameKeyToIndex = frameKeyToIndex' \<rparr>)"

fun registerFrames :: "(nat, FrameInfo) jsmap \<Rightarrow> Tables \<Rightarrow> Tables" where
  "registerFrames [] t = t"
| "registerFrames ((frameAddress, frameMetaData) # rest) t =
     registerFrames rest
       (addFrame t (name frameMetaData) (file_or_empty frameMetaData) (key frameMetaData)
          (KNum frameAddress))"

text \<open>
  The text of \<^verbatim>\<open>parentIndex\<close> in \<^verbatim>\<open>'$' + parentIndex + '$' + frameAddress\<close>: the result of a
  \<^verbatim>\<open>Map.get\<close>, a number or \<^verbatim>\<open>undefined\<close>.
\<close>

fun index_text :: "nat option \<Rightarrow> string" where
  "index_text None = ''undefined''"
| "index_text (Some i) = show_dec i"

text \<open>
  The walk of one sample's stack:
  \<^verbatim>\<open>let parentIndex = stackKeyToIndex.get(rootStackKey);
  for (let index = 0; index < stackTrace.length; index++) {
    const frameAddress = stackTrace[index];
    const keyOfStackKeyToIndexMap = '$' + parentIndex + '$' + frameAddress;
    if (!stackKeyToIndex.has(keyOfStackKeyToIndexMap)) {
      createStack(stackTable, stringTable, stackKeyToIndex, keyOfStackKeyToIndexMap,
        parentIndex, frameKeyToIndex.get(frameAddress));
    }
    parentIndex = stackKeyToIndex.get(keyOfStackKeyToIndexMap);
    if (index === stackTrace.length - 1) {
      samplesTable.stack.push(stackKeyToIndex.get(keyOfStackKeyToIndexMap));
      samplesTable.time.push(sample.timestamp / 1000000);
      samplesTable.responsiveness.push(null);
      samplesTable.length++;
    }
  }\<close>
  \<open>walkStack\<close> recurses over the frames that are left: \<open>index\<close> is the last index
  exactly when no frame is left after this one.
\<close>

record Walk =
  w_stack :: StackTable
  w_stackKeyToIndex :: "string \<rightharpoonup> nat"
  w_samples :: SamplesTable

fun walkStack ::
  "UniqueStringArray \<Rightarrow> (jskey \<rightharpoonup> nat) \<Rightarrow> nat \<Rightarrow> nat list \<Rightarrow> nat option \<Rightarrow> Walk \<Rightarrow> Walk" where
  "walkStack stringTable frameKeyToIndex ts [] parentIndex w = w"
| "walkStack stringTable frameKeyToIndex ts (frameAddress # rest) parentIndex w =
     (let keyOfStackKeyToIndexMap =
            ''$'' @ index_text parentIndex @ ''$'' @ show_dec frameAddress;
          (stackTable', stackKeyToIndex') =
            (if w_stackKeyToIndex w keyOfStackKeyToIndexMap = None
             then createStack (w_stack w) stringTable (w_stackKeyToIndex w)
                    keyOfStackKeyToIndexMap parentIndex (frameKeyToIndex (KNum frameAddress))
             else (w_stack w, w_stackKeyToIndex w));
          parentIndex' = stackKeyToIndex' keyOfStackKeyToIndexMap;
          samplesTable' =
            (if rest = []
             then (w_samples w)
                    \<lparr> samples_stack := samples_stack (w_samples w) @
                         [stackKeyToIndex' keyOfStackKeyToIndexMap],
                      samples_time := samples_time (w_samples w) @ [real ts / 1000000],
                      samples_responsiveness := samples_responsiveness (w_samples w) @ [None],
                      samples_length := samples_length (w_samples w) + 1 \<rparr>
             else w_samples w)
      in walkStack stringTable frameKeyToIndex ts rest parentIndex'
           \<lparr> w_stack = stackTable', w_stackKeyToIndex = stackKeyToIndex',
             w_samples = samplesTable' \<rparr>)"

text \<open>
  \<^verbatim>\<open>for (const sample of samples) {
    const stackTrace = sample.backtraceStack;
    let parentIndex = stackKeyToIndex.get(rootStackKey);
    ... }\<close>
\<close>

fun walkSamples ::
  "UniqueStringArray \<Rightarrow> (jskey \<rightharpoonup> nat) \<Rightarrow> ResolvedSample list \<Rightarrow> Walk \<Rightarrow> Walk" where
  "walkSamples stringTable frameKeyToIndex [] w = w"
| "walkSamples stringTable frameKeyToIndex (sample # rest) w =
     walkSamples stringTable frameKeyToIndex rest
       (walkStack stringTable frameKeyToIndex (timestamp sample) (backtraceStack sample)
          (w_stackKeyToIndex w ''rootStack'') w)"

text \<open>
  \<^verbatim>\<open>getProcessedThread(threadId, samples, addressToFrameMap)\<close>: the root function, frame
  and stack, then a function and a frame for every entry of the frame map, then the
  stacks of the samples. \<open>tables_after_root\<close> is the state after the root function and
  the root frame. \<open>processThread\<close> is the body of the function on the thread that
  \<^verbatim>\<open>getEmptyThread()\<close> has returned.
\<close>

definition tables_after_root :: "Thread \<Rightarrow> Tables" where
  "tables_after_root thread =
     addFrame \<lparr> t_func = thread_funcTable thread, t_frame = thread_frameTable thread,
                t_strings = thread_stringTable thread, t_funcKeyToIndex = Map.empty,
                t_frameKeyToIndex = Map.empty \<rparr>
       ''(root)'' [] (KStr ''(root)'') (KStr ''$00000000'')"

definition processThread ::
  "Thread \<Rightarrow> nat \<Rightarrow> ResolvedSample list \<Rightarrow> (nat, FrameInfo) jsmap \<Rightarrow> Thread" where
  "processThread thread threadId smpls addressToFrameMap =
     (let t0 = tables_after_root thread;
          (stackTable0, stackKeyToIndex0) =
            createStack (thread_stackTable thread) (t_strings t0) Map.empty ''rootStack'' None
              (t_frameKeyToIndex t0 (KStr ''$00000000''));
          t = registerFrames addressToFrameMap t0;
          w = walkSamples (t_strings t) (t_frameKeyToIndex t) smpls
                \<lparr> w_stack = stackTable0, w_stackKeyToIndex = stackKeyToIndex0,
                  w_samples = thread_samples thread \<rparr>
      in thread
           \<lparr> thread_name := ''Thread '' @ show_dec threadId,
             thread_funcTable := t_func t,
             thread_frameTable := t_frame t,
             thread_stackTable := w_stack w,
             thread_stringTable := t_strings t,
             thread_samples := w_samples w \<rparr>)"

definition getProcessedThread ::
  "nat \<Rightarrow> ResolvedSample list \<Rightarrow> (nat, FrameInfo) jsmap \<Rightarrow> Thread" where
  "getProcessedThread threadId smpls addressToFrameMap =
     processThread getEmptyThread threadId smpls addressToFrameMap"

subsection \<open>One thread for each thread id\<close>

text \<open>
  \<^verbatim>\<open>function pushThreadsInProfile(profile, addressToFrameMap, samples) {
    const threadIDToSamples = new Map();
    for (const sample of samples) {
      if (threadIDToSamples.has(sample.threadID)) {
        threadIDToSamples.get(sample.threadID).push(sample);
      } else {
        threadIDToSamples.set(sample.threadID, [sample]);
      }
    }
    for (const threadID of threadIDToSamples.keys()) {
      const processedThread = getProcessedThread(threadID,
        threadIDToSamples.get(threadID), addressToFrameMap);
      profile.threads.push(processedThread);
    }
  }\<close>
  The profile is its list of threads and the platform of its meta data.
\<close>

record Profile =
  threads :: "Thread list"
  meta_platform :: string

fun groupByThread ::
  "ResolvedSample list \<Rightarrow> (nat, ResolvedSample list) jsmap \<Rightarrow> (nat, ResolvedSample list) jsmap" where
  "groupByThread [] threadIDToSamples = threadIDToSamples"
| "groupByThread (sample # rest) threadIDToSamples =
     groupByThread rest
       (case map_get threadIDToSamples (threadID sample) of
          Some grp \<Rightarrow> map_set threadIDToSamples (threadID sample) (grp @ [sample])
        | None \<Rightarrow> map_set threadIDToSamples (threadID sample) [sample])"

definition pushThreadsInProfile ::
  "Profile \<Rightarrow> (nat, FrameInfo) jsmap \<Rightarrow> ResolvedSample list \<Rightarrow> Profile" where
  "pushThreadsInProfile profile addressToFrameMap smpls =
     (let threadIDToSamples = groupByThread smpls []
      in profile
           \<lparr> threads := threads profile @
               map (\<lambda>(tid, grp). getProcessedThread tid grp addressToFrameMap)
                 threadIDToSamples \<rparr>)"

section \<open>The binary stores of a trace\<close>

subsection \<open>The binary reader\<close>

text \<open>
  Modelled from the spec: the class \<^verbatim>\<open>BinReader\<close> (\<^verbatim>\<open>./BinReader\<close>, not part of the sources
  at hand). The spec reads the stores as little-endian fields of 32, 48 and 64 bits at
  a byte position that \<^verbatim>\<open>seek\<close> sets and \<^verbatim>\<open>skip\<close> moves, and lets a truncated read fail
  with an error that names the offset. A reader is its buffer and its position; a read
  returns the value and the reader behind the field, or the error.
\<close>

record BinReader =
  view :: "byte list"
  bytePos :: int

definition newBinReader :: "byte list \<Rightarrow> BinReader" where
  "newBinReader buffer = \<lparr> view = buffer, bytePos = 0 \<rparr>"

fun le_nat :: "byte list \<Rightarrow> nat" where
  "le_nat [] = 0"
| "le_nat (b # bs) = unat b + 256 * le_nat bs"

definition readBytes :: "nat \<Rightarrow> BinReader \<Rightarrow> error + (nat \<times> BinReader)" where
  "readBytes n r =
     (if 0 \<le> bytePos r \<and> bytePos r + int n \<le> int (length (view r))
      then Inr (le_nat (take n (drop (nat (bytePos r)) (view r))),
                r \<lparr> bytePos := bytePos r + int n \<rparr>)
      else Inl (TruncatedRead (bytePos r)))"

definition readUint32 :: "BinReader \<Rightarrow> error + (nat \<times> BinReader)" where
  "readUint32 r = readBytes 4 r"

definition readUint48 :: "BinReader \<Rightarrow> error + (nat \<times> BinReader)" where
  "readUint48 r = readBytes 6 r"

definition readUint64 :: "BinReader \<Rightarrow> error + (nat \<times> BinReader)" where
  "readUint64 r = readBytes 8 r"

definition seek :: "BinReader \<Rightarrow> int \<Rightarrow> BinReader" where
  "seek r pos = r \<lparr> bytePos := pos \<rparr>"

definition skip :: "BinReader \<Rightarrow> int \<Rightarrow> BinReader" where
  "skip r byteCount = r \<lparr> bytePos := bytePos r + byteCount \<rparr>"

definition hasMore :: "BinReader \<Rightarrow> bool" where
  "hasMore r \<longleftrightarrow> bytePos r < int (length (view r))"

subsection \<open>The directory tree\<close>

text \<open>
  \<^verbatim>\<open>TraceDirectoryTree\<close>: a name, the files and the subdirectories, both a \<^verbatim>\<open>Map\<close> by name.
  A file handle stands for the bytes that \<^verbatim>\<open>fileReader(file).asArrayBuffer()\<close> gives;
  \<^verbatim>\<open>asText()\<close> is read as one character for each byte.
\<close>

datatype TraceDirectoryTree =
  TraceDirectoryTree
    (tree_name: string)
    (files: "(string \<times> byte list) list")
    (subdirectories: "(string \<times> TraceDirectoryTree) list")

definition asText :: "byte list \<Rightarrow> string" where
  "asText bytes = map (\<lambda>b. char_of (unat b)) bytes"

text \<open>
  \<^verbatim>\<open>function getOrThrow(map, k) {
    if (!map.has(k)) { throw new Error(`Expected key ${k}`); }
    return map.get(k);
  }\<close>
\<close>

definition getOrThrow :: "(string, 'v) jsmap \<Rightarrow> string \<Rightarrow> error + 'v" where
  "getOrThrow m k =
     (case map_get m k of
        None \<Rightarrow> Inl (Error (''Expected key '' @ k))
      | Some v \<Rightarrow> Inr v)"


subsection \<open>The sample store\<close>

text \<open>
  The loop of \<^verbatim>\<open>getRawSampleList\<close> over the records of the bulkstore:
  \<^verbatim>\<open>const samples = [];
  while (true) {
    const timestamp = bulkstore.readUint48();
    if (timestamp === 0) break;
    const threadID = bulkstore.readUint32();
    bulkstore.skip(bytesPerEntry - 6 - 4 - 4);
    const backtraceID = bulkstore.readUint32();
    samples.push({ timestamp, threadID, backtraceID });
  }
  return samples;\<close>
  Nothing bounds the loop (with a stride of 0 it reads one record for ever), so it is a
  partial function: \<open>None\<close> is a loop that does not end.
\<close>

partial_function (option) readSamples ::
  "nat \<Rightarrow> BinReader \<Rightarrow> Sample list \<Rightarrow> (error + Sample list) option" where
  "readSamples bytesPerEntry bulkstore smpls =
     (case readUint48 bulkstore of
        Inl e \<Rightarrow> Some (Inl e)
      | Inr (ts, r1) \<Rightarrow>
          if ts = 0 then Some (Inr smpls)
          else (case readUint32 r1 of
                  Inl e \<Rightarrow> Some (Inl e)
                | Inr (tid, r2) \<Rightarrow>
                    (case readUint32 (skip r2 (int bytesPerEntry - 6 - 4 - 4)) of
                       Inl e \<Rightarrow> Some (Inl e)
                     | Inr (bid, r3) \<Rightarrow>
                         readSamples bytesPerEntry r3
                           (smpls @ [\<lparr> timestamp = ts, threadID = tid, backtraceID = bid \<rparr>]))))"

declare readSamples.simps [code]

text \<open>
  The bulkstore of the store that has been found:
  \<^verbatim>\<open>// Ignore the first 3 words
  bulkstore.readUint32();
  bulkstore.readUint32();
  bulkstore.readUint32();
  const headerSize = bulkstore.readUint32();
  const bytesPerEntry = bulkstore.readUint32();
  bulkstore.seek(headerSize);\<close>
  and then the loop.
\<close>

definition readBulkstore :: "byte list \<Rightarrow> (error + Sample list) option" where
  "readBulkstore buffer =
     (case readUint32 (newBinReader buffer) of
        Inl e \<Rightarrow> Some (Inl e)
      | Inr (_, r1) \<Rightarrow>
     (case readUint32 r1 of
        Inl e \<Rightarrow> Some (Inl e)
      | Inr (_, r2) \<Rightarrow>
     (case readUint32 r2 of
        Inl e \<Rightarrow> Some (Inl e)
      | Inr (_, r3) \<Rightarrow>
     (case readUint32 r3 of
        Inl e \<Rightarrow> Some (Inl e)
      | Inr (headerSize, r4) \<Rightarrow>
     (case readUint32 r4 of
        Inl e \<Rightarrow> Some (Inl e)
      | Inr (bytesPerEntry, r5) \<Rightarrow>
          readSamples bytesPerEntry (seek r5 (int headerSize)) [])))))"

text \<open>\<^verbatim>\<open>/name="time-profile"/.exec(schema)\<close> finds the text anywhere in the schema.\<close>

fun contains :: "string \<Rightarrow> string \<Rightarrow> bool" where
  "contains pat [] \<longleftrightarrow> pat = []"
| "contains pat (c # cs) \<longleftrightarrow> take (length pat) (c # cs) = pat \<or> contains pat cs"

text \<open>
  \<^verbatim>\<open>async function getRawSampleList(core) {
    const stores = getOrThrow(core.subdirectories, 'stores');
    for (const storedir of stores.subdirectories.values()) {
      const schemaFile = storedir.files.get('schema.xml');
      if (!schemaFile) continue;
      const schema = await fileReader(schemaFile).asText();
      if (!/name="time-profile"/.exec(schema)) { continue; }
      const bulkstore = new BinReader(
        await fileReader(getOrThrow(storedir.files, 'bulkstore')).asArrayBuffer());
      ...
      return samples;
    }
    throw new Error('Could not find sample list');
  }\<close>
\<close>

fun scanStores :: "TraceDirectoryTree list \<Rightarrow> (error + Sample list) option" where
  "scanStores [] = Some (Inl (Error ''Could not find sample list''))"
| "scanStores (storedir # rest) =
     (case map_get (files storedir) ''schema.xml'' of
        None \<Rightarrow> scanStores rest
      | Some schemaFile \<Rightarrow>
          if \<not> contains ''name=\"time-profile\"'' (asText schemaFile) then scanStores rest
          else (case getOrThrow (files storedir) ''bulkstore'' of
                  Inl e \<Rightarrow> Some (Inl e)
                | Inr buffer \<Rightarrow> readBulkstore buffer))"

definition getRawSampleList :: "TraceDirectoryTree \<Rightarrow> (error + Sample list) option" where
  "getRawSampleList core =
     (case getOrThrow (subdirectories core) ''stores'' of
        Inl e \<Rightarrow> Some (Inl e)
      | Inr stores \<Rightarrow> scanStores (map snd (subdirectories stores)))"

subsection \<open>The array store\<close>

text \<open>
  The inner loop of \<^verbatim>\<open>getIntegerArrays\<close>:
  \<^verbatim>\<open>let length = datareader.readUint32();
  const array = [];
  while (length--) { array.push(datareader.readUint64()); }\<close>
\<close>

fun readArray :: "nat \<Rightarrow> BinReader \<Rightarrow> nat list \<Rightarrow> error + (nat list \<times> BinReader)" where
  "readArray 0 datareader array = Inr (array, datareader)"
| "readArray (Suc n) datareader array =
     (case readUint64 datareader of
        Inl e \<Rightarrow> Inl e
      | Inr (v, datareader') \<Rightarrow> readArray n datareader' (array @ [v]))"

text \<open>
  The outer loop:
  \<^verbatim>\<open>while (indexreader.hasMore()) {
    const byteOffset = indexreader.readUint32() + indexreader.readUint32() * (1024 * 1024);
    if (byteOffset === 0) { continue; }
    datareader.seek(byteOffset);
    let length = datareader.readUint32();
    ...
    arrays.push(array);
  }\<close>
  Every round moves the index reader on by eight bytes or fails, so the loop ends.
\<close>

function readArrays ::
  "BinReader \<Rightarrow> BinReader \<Rightarrow> nat list list \<Rightarrow> error + nat list list" where
  "readArrays indexreader datareader arrays =
     (if \<not> hasMore indexreader then Inr arrays
      else (case readUint32 indexreader of
              Inl e \<Rightarrow> Inl e
            | Inr (lo, r1) \<Rightarrow>
                (case readUint32 r1 of
                   Inl e \<Rightarrow> Inl e
                 | Inr (hi, r2) \<Rightarrow>
                     let byteOffset = lo + hi * (1024 * 1024) in
                     if byteOffset = 0 then readArrays r2 datareader arrays
                     else (case readUint32 (seek datareader (int byteOffset)) of
                             Inl e \<Rightarrow> Inl e
                           | Inr (len, d1) \<Rightarrow>
                               (case readArray len d1 [] of
                                  Inl e \<Rightarrow> Inl e
                                | Inr (array, d2) \<Rightarrow> readArrays r2 d2 (arrays @ [array]))))))"
  by pat_completeness auto
termination
  by (relation "measure (\<lambda>(indexreader, datareader, arrays).
        nat (int (length (view indexreader)) - bytePos indexreader))")
    (auto simp: readUint32_def readBytes_def hasMore_def split: if_splits)

text \<open>
  \<^verbatim>\<open>async function getIntegerArrays(samples, core) {
    const uniquing = getOrThrow(core.subdirectories, 'uniquing');
    const arrayUniquer = getOrThrow(uniquing.subdirectories, 'arrayUniquer');
    const integeruniquerindex = getOrThrow(arrayUniquer.files, 'integeruniquer.index');
    const integeruniquerdata = getOrThrow(arrayUniquer.files, 'integeruniquer.data');
    const indexreader = new BinReader(...);
    const datareader = new BinReader(...);
    // Header we don't care about
    indexreader.seek(32);
    const arrays = [];
    while (...) { ... }
    return arrays;
  }\<close>
  \<open>integerArrays\<close> is the function on the contents of the two files.
\<close>

definition integerArrays :: "byte list \<Rightarrow> byte list \<Rightarrow> error + nat list list" where
  "integerArrays integeruniquerindex integeruniquerdata =
     readArrays (seek (newBinReader integeruniquerindex) 32) (newBinReader integeruniquerdata) []"

definition getIntegerArrays :: "Sample list \<Rightarrow> TraceDirectoryTree \<Rightarrow> error + nat list list" where
  "getIntegerArrays smpls core =
     (case getOrThrow (subdirectories core) ''uniquing'' of
        Inl e \<Rightarrow> Inl e
      | Inr uniquing \<Rightarrow>
     (case getOrThrow (subdirectories uniquing) ''arrayUniquer'' of
        Inl e \<Rightarrow> Inl e
      | Inr arrayUniquer \<Rightarrow>
     (case getOrThrow (files arrayUniquer) ''integeruniquer.index'' of
        Inl e \<Rightarrow> Inl e
      | Inr integeruniquerindex \<Rightarrow>
     (case getOrThrow (files arrayUniquer) ''integeruniquer.data'' of
        Inl e \<Rightarrow> Inl e
      | Inr integeruniquerdata \<Rightarrow> integerArrays integeruniquerindex integeruniquerdata))))"

section \<open>Backtraces\<close>

text \<open>
  The raw address frame of \<^verbatim>\<open>appendRecursive\<close>:
  \<^verbatim>\<open>const rawAddressFrame = { key: k, name: `0x${zeroPad(k.toString(16), 16)}` };\<close>
\<close>

definition rawAddressFrame :: "nat \<Rightarrow> FrameInfo" where
  "rawAddressFrame k = \<lparr> key = KNum k, name = ''0x'' @ zeroPad (show_hex k) 16, file' = None \<rparr>"







section \<open>Decimal numbers of a keyed archive\<close>









section \<open>Invariants and example inputs\<close>

text \<open>
  A prefix column is a tree when its first row has no prefix and every other row has a
  prefix that is an earlier row.
\<close>

definition rows_ok :: "nat option list \<Rightarrow> bool" where
  "rows_ok ps = (\<forall>i < length ps. (i = 0 \<and> ps ! i = None) \<or> (\<exists>p. ps ! i = Some p \<and> p < i))"

text \<open>
  The invariant of the walk over the samples: the length field counts the rows, the root
  row is there, every index in \<open>stackKeyToIndex\<close> is a row, the key of the root is
  present, and the prefix column is a tree.
\<close>

definition walk_inv :: "Walk \<Rightarrow> bool" where
  "walk_inv w \<longleftrightarrow>
     length (stack_prefix (w_stack w)) = stack_length (w_stack w) \<and>
     0 < stack_length (w_stack w) \<and>
     (\<forall>k v. w_stackKeyToIndex w k = Some v \<longrightarrow> v < stack_length (w_stack w)) \<and>
     (\<exists>r. w_stackKeyToIndex w ''rootStack'' = Some r) \<and>
     rows_ok (stack_prefix (w_stack w))"

text \<open>
  The rows of a frame table read through the string table: \<open>addr_ok t xs\<close> holds when the
  frame table of \<open>t\<close> has one row for each text of \<open>xs\<close>, in this order, and the address
  of the row is the index of the text in the string table.
\<close>

definition addr_ok :: "Tables \<Rightarrow> string list \<Rightarrow> bool" where
  "addr_ok t xs \<longleftrightarrow>
     frame_length (t_frame t) = length xs \<and>
     length (frame_address (t_frame t)) = length xs \<and>
     (\<forall>i < length xs. frame_address (t_frame t) ! i < length (t_strings t) \<and>
        t_strings t ! (frame_address (t_frame t) ! i) = xs ! i)"

text \<open>A frame map of one symbol and one raw address, and three samples on two threads.\<close>

definition example_frames :: "(nat, FrameInfo) jsmap" where
  "example_frames =
     [(5, \<lparr> key = KStr ''a.c:main'', name = ''main'', file' = Some ''a.c'' \<rparr>),
      (7, \<lparr> key = KNum 7, name = ''0x0000000000000007'', file' = None \<rparr>)]"

definition example_samples :: "ResolvedSample list" where
  "example_samples =
     [\<lparr> timestamp = 1000000, threadID = 1, backtraceID = 0, backtraceStack = [5, 7] \<rparr>,
      \<lparr> timestamp = 2000000, threadID = 1, backtraceID = 1, backtraceStack = [] \<rparr>,
      \<lparr> timestamp = 3000000, threadID = 2, backtraceID = 2, backtraceStack = [5] \<rparr>]"

definition example_profile :: Profile where
  "example_profile = \<lparr> threads = [], meta_platform = [] \<rparr>"

subsection \<open>The layout of the stores\<close>

text \<open>A field of \<open>n\<close> bytes that holds the number \<open>v\<close>, little-endian.\<close>

fun le_bytes :: "nat \<Rightarrow> nat \<Rightarrow> byte list" where
  "le_bytes 0 v = []"
| "le_bytes (Suc n) v = of_nat (v mod 256) # le_bytes n (v div 256)"

text \<open>
  A record of the bulkstore: the timestamp in 6 bytes, the thread id in 4 bytes, bytes
  that the importer passes over, and the backtrace id in the last 4 bytes.
\<close>

definition record_bytes :: "Sample \<Rightarrow> byte list \<Rightarrow> byte list" where
  "record_bytes s pad =
     le_bytes 6 (timestamp s) @ le_bytes 4 (threadID s) @ pad @ le_bytes 4 (backtraceID s)"

text \<open>
  Two samples, a bulkstore that holds them behind a header of three ignored words, the
  header size 20 and the stride 16, and a bulkstore that holds them behind a header of
  four ignored words, the header size 24 and the stride 16.
\<close>

definition example_raw_samples :: "Sample list" where
  "example_raw_samples =
     [\<lparr> timestamp = 1000, threadID = 7, backtraceID = 3 \<rparr>,
      \<lparr> timestamp = 2000, threadID = 8, backtraceID = 4 \<rparr>]"

definition example_records :: "byte list" where
  "example_records =
     record_bytes \<lparr> timestamp = 1000, threadID = 7, backtraceID = 3 \<rparr> [255, 255] @
     record_bytes \<lparr> timestamp = 2000, threadID = 8, backtraceID = 4 \<rparr> [255, 255] @
     le_bytes 6 0"

definition bulkstore_three_words :: "byte list" where
  "bulkstore_three_words =
     le_bytes 4 1 @ le_bytes 4 2 @ le_bytes 4 3 @ le_bytes 4 20 @ le_bytes 4 16 @ example_records"

definition bulkstore_four_words :: "byte list" where
  "bulkstore_four_words =
     le_bytes 4 0 @ le_bytes 4 0 @ le_bytes 4 0 @ le_bytes 4 0 @ le_bytes 4 24 @ le_bytes 4 16 @
     example_records"

definition example_schema_bytes :: "byte list" where
  "example_schema_bytes = map (\<lambda>c. of_nat (of_char c)) ''<schema name=\"time-profile\">''"

definition example_core :: "byte list \<Rightarrow> TraceDirectoryTree" where
  "example_core bulkstore =
     TraceDirectoryTree ''core'' []
       [(''stores'', TraceDirectoryTree ''stores'' []
          [(''indexed-store-0'', TraceDirectoryTree ''indexed-store-0''
             [(''schema.xml'', example_schema_bytes), (''bulkstore'', bulkstore)] [])])]"

subsection \<open>The array store as the specification reads it\<close>

text \<open>
  The index file behind its header is a sequence of pairs of 32-bit words, the low 32
  bits of an offset and its count of megabytes.
\<close>

fun index_pairs :: "byte list \<Rightarrow> (nat \<times> nat) list" where
  "index_pairs bs =
     (if length bs < 8 then []
      else (le_nat (take 4 bs), le_nat (take 4 (drop 4 bs))) # index_pairs (drop 8 bs))"

declare index_pairs.simps [simp del]

text \<open>The offsets into the data file: \<open>low + high * 1048576\<close>, the zero offsets left out.\<close>

definition index_offsets :: "byte list \<Rightarrow> nat list" where
  "index_offsets integeruniquerindex =
     filter (\<lambda>byteOffset. byteOffset \<noteq> 0)
       (map (\<lambda>(lo, hi). lo + hi * 1048576) (index_pairs (drop 32 integeruniquerindex)))"

text \<open>
  The array at an offset of the data file: a 32-bit count and that many 64-bit
  little-endian integers. It fits when the file holds all of it.
\<close>

definition array_at :: "byte list \<Rightarrow> nat \<Rightarrow> nat list" where
  "array_at integeruniquerdata byteOffset =
     map (\<lambda>i. le_nat (take 8 (drop (byteOffset + 4 + 8 * i) integeruniquerdata)))
       [0..<le_nat (take 4 (drop byteOffset integeruniquerdata))]"

definition array_fits :: "byte list \<Rightarrow> nat \<Rightarrow> bool" where
  "array_fits integeruniquerdata byteOffset \<longleftrightarrow>
     byteOffset + 4 \<le> length integeruniquerdata \<and>
     byteOffset + 4 + 8 * le_nat (take 4 (drop byteOffset integeruniquerdata))
       \<le> length integeruniquerdata"

text \<open>
  An index file with the entries 0 (passed over), 32 and 52, and a data file with the
  array \<open>[5, 7]\<close> at the offset 32 and the array \<open>[9]\<close> at the offset 52.
\<close>

definition example_index :: "byte list" where
  "example_index =
     replicate 32 0 @ le_bytes 4 0 @ le_bytes 4 0 @ le_bytes 4 32 @ le_bytes 4 0 @
     le_bytes 4 52 @ le_bytes 4 0"

definition example_data :: "byte list" where
  "example_data =
     replicate 32 0 @ le_bytes 4 2 @ le_bytes 8 5 @ le_bytes 8 7 @ le_bytes 4 1 @ le_bytes 8 9"

definition example_uniquing :: TraceDirectoryTree where
  "example_uniquing =
     TraceDirectoryTree ''uniquing'' []
       [(''arrayUniquer'', TraceDirectoryTree ''arrayUniquer''
          [(''integeruniquer.index'', example_index), (''integeruniquer.data'', example_data)] [])]"

subsection \<open>The resolution of a backtrace id as the specification states it\<close>

text \<open>
  The stack of an id, root last: an id that is a known frame address is the stack of
  itself; an id that is an index of the array table is the stacks of the elements of
  its array, in their order; any other id is the stack of itself (and becomes a raw
  address frame). The first argument bounds the depth as in \<open>appendRecursive\<close>.
\<close>

fun spec_resolve :: "nat \<Rightarrow> (nat \<Rightarrow> bool) \<Rightarrow> nat list list \<Rightarrow> nat \<Rightarrow> nat list option"
and spec_resolve_each :: "nat \<Rightarrow> (nat \<Rightarrow> bool) \<Rightarrow> nat list list \<Rightarrow> nat list \<Rightarrow> nat list option" where
  "spec_resolve 0 known arrays k = None"
| "spec_resolve (Suc depth) known arrays k =
     (if known k then Some [k]
      else if k < length arrays then spec_resolve_each depth known arrays (arrays ! k)
      else Some [k])"
| "spec_resolve_each depth known arrays [] = Some []"
| "spec_resolve_each depth known arrays (addr # rest) =
     (case spec_resolve depth known arrays addr of
        None \<Rightarrow> None
      | Some ks \<Rightarrow> map_option ((@) ks) (spec_resolve_each depth known arrays rest))"

text \<open>The known frame addresses of a frame map.\<close>

definition known :: "(nat, FrameInfo) jsmap \<Rightarrow> nat \<Rightarrow> bool" where
  "known addressToFrameMap k \<longleftrightarrow> map_get addressToFrameMap k \<noteq> None"

text \<open>
  The frame map after the ids of a stack have been met in their order: an id that is
  not in the map gets its raw address frame.
\<close>

fun register :: "(nat, FrameInfo) jsmap \<Rightarrow> nat list \<Rightarrow> (nat, FrameInfo) jsmap" where
  "register addressToFrameMap [] = addressToFrameMap"
| "register addressToFrameMap (k # ks) =
     register (if map_get addressToFrameMap k = None
               then map_set addressToFrameMap k (rawAddressFrame k)
               else addressToFrameMap) ks"


text \<open>
  An array table in which the id 0 is the stacks of the ids 1 and 2, the id 1 is two
  known frames and the id 2 is the unknown address 9; and three samples, two of them
  with the backtrace id 0.
\<close>

definition example_arrays :: "nat list list" where
  "example_arrays = [[1, 2], [5, 7], [9]]"



section \<open>Theorems\<close>

subsection \<open>The magic header check\<close>

lemma magic_loop_iff:
  "magic_loop bytes is = (\<forall>i \<in> set is. byteAt bytes i = Some (charCodeAt ''bplist00'' i))"
  by (induction "is") auto

lemma bplist_magic_nth:
  "i < 8 \<Longrightarrow> unat (bplist_magic ! i) = charCodeAt ''bplist00'' i"
proof -
  assume "i < 8"
  then have "i \<in> {0, 1, 2, 3, 4, 5, 6, 7}" by auto
  then show ?thesis
    by (auto simp: bplist_magic_def charCodeAt_def)
qed

lemma magic_loop_take:
  "magic_loop bytes [0..<8] \<longleftrightarrow> take 8 bytes = bplist_magic"
proof
  assume m: "magic_loop bytes [0..<8]"
  then have a: "\<forall>i<8. byteAt bytes i = Some (charCodeAt ''bplist00'' i)"
    by (simp add: magic_loop_iff)
  have "byteAt bytes 7 = Some (charCodeAt ''bplist00'' 7)"
    using a by simp
  then have len: "8 \<le> length bytes"
    by (simp add: byteAt_def split: if_splits)
  have "length (take 8 bytes) = length bplist_magic"
    using len by (simp add: bplist_magic_def)
  moreover have "\<forall>i < length (take 8 bytes). take 8 bytes ! i = bplist_magic ! i"
  proof (intro allI impI)
    fix i assume "i < length (take 8 bytes)"
    then have i: "i < 8" by simp
    with a len have "unat (bytes ! i) = charCodeAt ''bplist00'' i"
      by (auto simp: byteAt_def split: if_splits)
    with i have "unat (bytes ! i) = unat (bplist_magic ! i)"
      by (simp add: bplist_magic_nth)
    then show "take 8 bytes ! i = bplist_magic ! i"
      using i by (simp add: word_unat_eq_iff)
  qed
  ultimately show "take 8 bytes = bplist_magic"
    by (simp add: list_eq_iff_nth_eq)
next
  assume t: "take 8 bytes = bplist_magic"
  then have "length (take 8 bytes) = 8"
    by (simp add: bplist_magic_def)
  then have len: "8 \<le> length bytes"
    by simp
  have "\<forall>i<8. byteAt bytes i = Some (charCodeAt ''bplist00'' i)"
  proof (intro allI impI)
    fix i :: nat assume i: "i < 8"
    have "bytes ! i = take 8 bytes ! i" using i by simp
    then show "byteAt bytes i = Some (charCodeAt ''bplist00'' i)"
      using i len t by (simp add: byteAt_def bplist_magic_nth)
  qed
  then show "magic_loop bytes [0..<8]"
    by (simp add: magic_loop_iff)
qed

text \<open>
  C8. A buffer whose first eight bytes are not the characters \<open>bplist00\<close> (a buffer
  shorter than eight bytes among them) makes \<open>parseBinaryPlist\<close> throw the error "File is
  not a binary plist", the importer's format error, and return no value; a buffer that
  begins with the magic header passes the check, and the result is the parser's.
\<close>

theorem parseBinaryPlist_magic:
  "(take 8 bytes \<noteq> bplist_magic \<longrightarrow>
      parseBinaryPlist parseRoot bytes = Inl (Error ''File is not a binary plist'')) \<and>
   (take 8 bytes = bplist_magic \<longrightarrow> parseBinaryPlist parseRoot bytes = parseRoot bytes)"
  by (simp add: parseBinaryPlist_def magic_loop_take)

theorem parseBinaryPlist_magic_witness:
  "take 8 [98, 112, 108 :: byte] \<noteq> bplist_magic \<and>
   parseBinaryPlist (\<lambda>b. Inr (length b)) [98, 112, 108] = Inl (Error ''File is not a binary plist'') \<and>
   take 8 (bplist_magic @ [0]) = bplist_magic \<and>
   parseBinaryPlist (\<lambda>b. Inr (length b)) (bplist_magic @ [0]) = Inr 9"
  using parseBinaryPlist_magic [of "[98, 112, 108]" "\<lambda>b. Inr (length b)"]
    parseBinaryPlist_magic [of "bplist_magic @ [0]" "\<lambda>b. Inr (length b)"]
  by (simp add: bplist_magic_def)

subsection \<open>The tables of one thread\<close>

lemma walkStack_samples_length:
  "samples_length (w_samples (walkStack st fk ts frames p w)) =
     samples_length (w_samples w) + (if frames = [] then 0 else 1)"
  by (induction frames arbitrary: p w) (auto simp: Let_def split: prod.splits)

lemma walkStack_samples_time:
  "samples_time (w_samples (walkStack st fk ts frames p w)) =
     samples_time (w_samples w) @ (if frames = [] then [] else [real ts / 1000000])"
  by (induction frames arbitrary: p w) (auto simp: Let_def split: prod.splits)

lemma walkStack_samples_stack_len:
  "length (samples_stack (w_samples (walkStack st fk ts frames p w))) =
     length (samples_stack (w_samples w)) + (if frames = [] then 0 else 1)"
  by (induction frames arbitrary: p w) (auto simp: Let_def split: prod.splits)

lemma walkStack_samples_resp:
  "samples_responsiveness (w_samples (walkStack st fk ts frames p w)) =
     samples_responsiveness (w_samples w) @ (if frames = [] then [] else [None])"
  by (induction frames arbitrary: p w) (auto simp: Let_def split: prod.splits)

lemma walkSamples_samples_length:
  "samples_length (w_samples (walkSamples st fk smpls w)) =
     samples_length (w_samples w) + length (filter (\<lambda>s. backtraceStack s \<noteq> []) smpls)"
  by (induction smpls arbitrary: w) (auto simp: walkStack_samples_length)

lemma walkSamples_samples_time:
  "samples_time (w_samples (walkSamples st fk smpls w)) =
     samples_time (w_samples w) @
       map (\<lambda>s. real (timestamp s) / 1000000) (filter (\<lambda>s. backtraceStack s \<noteq> []) smpls)"
  by (induction smpls arbitrary: w) (auto simp: walkStack_samples_time)

lemma walkSamples_samples_stack_len:
  "length (samples_stack (w_samples (walkSamples st fk smpls w))) =
     length (samples_stack (w_samples w)) + length (filter (\<lambda>s. backtraceStack s \<noteq> []) smpls)"
  by (induction smpls arbitrary: w) (auto simp: walkStack_samples_stack_len)

lemma walkSamples_samples_resp:
  "samples_responsiveness (w_samples (walkSamples st fk smpls w)) =
     samples_responsiveness (w_samples w) @
       replicate (length (filter (\<lambda>s. backtraceStack s \<noteq> []) smpls)) None"
  by (induction smpls arbitrary: w) (auto simp: walkStack_samples_resp replicate_app_Cons_same)

lemma thread_samples_processThread:
  "thread_samples (processThread thread tid smpls fm) =
     w_samples (walkSamples (t_strings (registerFrames fm (tables_after_root thread)))
        (t_frameKeyToIndex (registerFrames fm (tables_after_root thread))) smpls
        \<lparr> w_stack = fst (createStack (thread_stackTable thread) (t_strings (tables_after_root thread)) Map.empty ''rootStack'' None
              (t_frameKeyToIndex (tables_after_root thread) (KStr ''$00000000''))),
          w_stackKeyToIndex = snd (createStack (thread_stackTable thread) (t_strings (tables_after_root thread)) Map.empty ''rootStack'' None
              (t_frameKeyToIndex (tables_after_root thread) (KStr ''$00000000''))),
          w_samples = thread_samples thread \<rparr>)"
  by (simp add: processThread_def Let_def split: prod.splits)

text \<open>
  C10. A sample whose resolved stack is empty leaves the tables of the walk as they are
  (the walk over its frames does nothing: no stack row, no sample row, no time), so
  the samples table of a thread has one row for each of its samples with a non-empty
  stack, in their order and with their times, and not one row for each input sample.
\<close>

theorem getProcessedThread_samples:
  "walkStack st fk ts [] p w = w \<and>
   samples_length (thread_samples (getProcessedThread tid smpls fm)) =
     length (filter (\<lambda>s. backtraceStack s \<noteq> []) smpls) \<and>
   length (samples_stack (thread_samples (getProcessedThread tid smpls fm))) =
     length (filter (\<lambda>s. backtraceStack s \<noteq> []) smpls) \<and>
   samples_time (thread_samples (getProcessedThread tid smpls fm)) =
     map (\<lambda>s. real (timestamp s) / 1000000) (filter (\<lambda>s. backtraceStack s \<noteq> []) smpls)"
  by (simp add: getProcessedThread_def thread_samples_processThread walkSamples_samples_length
      walkSamples_samples_time walkSamples_samples_stack_len getEmptyThread_def)

lemma rows_ok_snoc:
  "rows_ok ps \<Longrightarrow> p < length ps \<Longrightarrow> rows_ok (ps @ [Some p])"
  by (auto simp: rows_ok_def nth_append)

lemma walkStack_inv:
  "walk_inv w \<Longrightarrow> p < stack_length (w_stack w) \<Longrightarrow>
   walk_inv (walkStack st fk ts frames (Some p) w)"
proof (induction frames arbitrary: p w)
  case Nil
  then show ?case by simp
next
  case (Cons a frames)
  let ?key = "''$'' @ index_text (Some p) @ ''$'' @ show_dec a"
  show ?case
  proof (cases "w_stackKeyToIndex w ?key")
    case None
    let ?w' = "\<lparr> w_stack = fst (createStack (w_stack w) st (w_stackKeyToIndex w) ?key (Some p) (fk (KNum a))),
                 w_stackKeyToIndex = snd (createStack (w_stack w) st (w_stackKeyToIndex w) ?key (Some p) (fk (KNum a))),
                 w_samples = (if frames = []
             then (w_samples w)
                    \<lparr> samples_stack := samples_stack (w_samples w) @
                         [snd (createStack (w_stack w) st (w_stackKeyToIndex w) ?key (Some p) (fk (KNum a))) ?key],
                      samples_time := samples_time (w_samples w) @ [real ts / 1000000],
                      samples_responsiveness := samples_responsiveness (w_samples w) @ [None],
                      samples_length := samples_length (w_samples w) + 1 \<rparr>
             else w_samples w) \<rparr>"
    have inv': "walk_inv ?w'"
      using Cons.prems None
      by (auto simp: walk_inv_def createStack_def less_Suc_eq intro!: rows_ok_snoc)
    have eq: "walkStack st fk ts (a # frames) (Some p) w =
          walkStack st fk ts frames (Some (stack_length (w_stack w))) ?w'"
      using None by (simp add: Let_def createStack_def)
    have "stack_length (w_stack w) < stack_length (w_stack ?w')"
      by (simp add: createStack_def)
    from Cons.IH [OF inv' this] show ?thesis
      by (simp only: eq)
  next
    case (Some v)
    let ?w' = "\<lparr> w_stack = w_stack w, w_stackKeyToIndex = w_stackKeyToIndex w,
                 w_samples = (if frames = []
             then (w_samples w)
                    \<lparr> samples_stack := samples_stack (w_samples w) @ [Some v],
                      samples_time := samples_time (w_samples w) @ [real ts / 1000000],
                      samples_responsiveness := samples_responsiveness (w_samples w) @ [None],
                      samples_length := samples_length (w_samples w) + 1 \<rparr>
             else w_samples w) \<rparr>"
    have inv': "walk_inv ?w'"
      using Cons.prems by (auto simp: walk_inv_def)
    have eq: "walkStack st fk ts (a # frames) (Some p) w = walkStack st fk ts frames (Some v) ?w'"
      using Some by (simp add: Let_def)
    have "v < stack_length (w_stack ?w')"
      using Cons.prems(1) Some by (auto simp: walk_inv_def)
    from Cons.IH [OF inv' this] show ?thesis
      by (simp only: eq)
  qed
qed

lemma walkSamples_inv:
  "walk_inv w \<Longrightarrow> walk_inv (walkSamples st fk smpls w)"
proof (induction smpls arbitrary: w)
  case Nil
  then show ?case by simp
next
  case (Cons s smpls)
  from Cons.prems obtain r where r: "w_stackKeyToIndex w ''rootStack'' = Some r"
    and "r < stack_length (w_stack w)"
    by (auto simp: walk_inv_def)
  then have "walk_inv (walkStack st fk (timestamp s) (backtraceStack s) (Some r) w)"
    using Cons.prems by (simp add: walkStack_inv)
  then show ?case
    using Cons.IH r by simp
qed

lemma thread_stackTable_processThread:
  "thread_stackTable (processThread thread tid smpls fm) =
     w_stack (walkSamples (t_strings (registerFrames fm (tables_after_root thread)))
        (t_frameKeyToIndex (registerFrames fm (tables_after_root thread))) smpls
        \<lparr> w_stack = fst (createStack (thread_stackTable thread) (t_strings (tables_after_root thread)) Map.empty ''rootStack'' None
              (t_frameKeyToIndex (tables_after_root thread) (KStr ''$00000000''))),
          w_stackKeyToIndex = snd (createStack (thread_stackTable thread) (t_strings (tables_after_root thread)) Map.empty ''rootStack'' None
              (t_frameKeyToIndex (tables_after_root thread) (KStr ''$00000000''))),
          w_samples = thread_samples thread \<rparr>)"
  by (simp add: processThread_def Let_def split: prod.splits)

lemma root_walk_inv:
  "walk_inv \<lparr> w_stack = fst (createStack (thread_stackTable getEmptyThread) s Map.empty ''rootStack'' None f),
          w_stackKeyToIndex = snd (createStack (thread_stackTable getEmptyThread) s Map.empty ''rootStack'' None f),
          w_samples = x \<rparr>"
  by (simp add: walk_inv_def createStack_def getEmptyThread_def rows_ok_def)

text \<open>
  C3. In the stack table of a thread that \<open>getProcessedThread\<close> has built, the row 0 is
  the root and has the prefix \<^verbatim>\<open>null\<close>, and every other row has a prefix that is the index
  of a row created before it: the prefix column is a tree with the synthetic root stack
  as its root.
\<close>

theorem getProcessedThread_stack_tree:
  "\<forall>i < length (stack_prefix (thread_stackTable (getProcessedThread tid smpls fm))).
     (i = 0 \<and> stack_prefix (thread_stackTable (getProcessedThread tid smpls fm)) ! i = None) \<or>
     (\<exists>p. stack_prefix (thread_stackTable (getProcessedThread tid smpls fm)) ! i = Some p \<and> p < i)"
  using walkSamples_inv [OF root_walk_inv]
  unfolding getProcessedThread_def thread_stackTable_processThread walk_inv_def rows_ok_def
  by blast

lemmas thread_eval =
  getProcessedThread_def processThread_def Let_def tables_after_root_def
  addFrame_def getOrCreateFunc_def createFrame_def createStack_def indexForString_def
  getEmptyThread_def show_dec.simps digit_char_def file_or_empty_def
  pushThreadsInProfile_def map_get_def

lemma example_stack_prefix:
  "stack_prefix (thread_stackTable (getProcessedThread 3 example_samples example_frames)) =
     [None, Some 0, Some 1]"
  by (simp add: thread_eval example_samples_def example_frames_def)

theorem getProcessedThread_stack_tree_witness:
  "2 < length (stack_prefix (thread_stackTable (getProcessedThread 3 example_samples example_frames))) \<and>
   (\<exists>p. stack_prefix (thread_stackTable (getProcessedThread 3 example_samples example_frames)) ! 2 =
      Some p \<and> p < 2)"
  using getProcessedThread_stack_tree
    [where tid = 3 and smpls = example_samples and fm = example_frames, THEN spec, of 2]
  by (simp add: example_stack_prefix)

lemma example_string_tables:
  "map thread_stringTable
     (threads (pushThreadsInProfile example_profile example_frames example_samples)) =
   [[''(root)'', [], ''$00000000'', ''main'', ''a.c'', ''5'', ''0x0000000000000007'', ''7''],
    [''(root)'', [], ''$00000000'', ''main'', ''a.c'', ''5'', ''0x0000000000000007'', ''7'']]"
  by (simp add: thread_eval example_samples_def example_frames_def example_profile_def)


lemma thread_stringTable_processThread:
  "thread_stringTable (processThread thread tid smpls fm) =
     t_strings (registerFrames fm (tables_after_root thread))"
  by (simp add: processThread_def Let_def split: prod.splits)


lemma new_threads:
  "threads (pushThreadsInProfile profile fm smpls) =
     threads profile @ map (\<lambda>(tid, grp). getProcessedThread tid grp fm) (groupByThread smpls [])"
  by (simp add: pushThreadsInProfile_def)

text \<open>
  C2. Any two threads that one call of \<open>pushThreadsInProfile\<close> has pushed have the same
  string table, string for string: a string has the same index in both, and interning
  it in either gives the same index.
\<close>

theorem pushThreadsInProfile_string_index:
  assumes "t1 \<in> set (drop (length (threads profile)) (threads (pushThreadsInProfile profile fm smpls)))"
    and "t2 \<in> set (drop (length (threads profile)) (threads (pushThreadsInProfile profile fm smpls)))"
  shows "thread_stringTable t1 = thread_stringTable t2 \<and>
         index_of s (thread_stringTable t1) = index_of s (thread_stringTable t2) \<and>
         fst (indexForString (thread_stringTable t1) s) = fst (indexForString (thread_stringTable t2) s)"
proof -
  have "\<And>t. t \<in> set (drop (length (threads profile)) (threads (pushThreadsInProfile profile fm smpls)))
     \<Longrightarrow> thread_stringTable t = t_strings (registerFrames fm (tables_after_root getEmptyThread))"
    by (auto simp: new_threads getProcessedThread_def thread_stringTable_processThread)
  with assms show ?thesis by simp
qed

theorem pushThreadsInProfile_string_index_witness:
  "threads (pushThreadsInProfile example_profile example_frames example_samples) ! 0 \<in>
     set (drop (length (threads example_profile))
       (threads (pushThreadsInProfile example_profile example_frames example_samples))) \<and>
   threads (pushThreadsInProfile example_profile example_frames example_samples) ! 1 \<in>
     set (drop (length (threads example_profile))
       (threads (pushThreadsInProfile example_profile example_frames example_samples))) \<and>
   index_of ''main'' (thread_stringTable
     (threads (pushThreadsInProfile example_profile example_frames example_samples) ! 0)) = Some 3 \<and>
   index_of ''main'' (thread_stringTable
     (threads (pushThreadsInProfile example_profile example_frames example_samples) ! 1)) = Some 3"
proof -
  let ?ts = "threads (pushThreadsInProfile example_profile example_frames example_samples)"
  have len: "length ?ts = 2"
    using arg_cong [OF example_string_tables, of length] by simp
  have e: "length (threads example_profile) = 0"
    by (simp add: example_profile_def)
  have m0: "?ts ! 0 \<in> set (drop (length (threads example_profile)) ?ts)"
    and m1: "?ts ! 1 \<in> set (drop (length (threads example_profile)) ?ts)"
    using len by (simp_all add: e)
  have s0: "thread_stringTable (?ts ! 0) =
      [''(root)'', [], ''$00000000'', ''main'', ''a.c'', ''5'', ''0x0000000000000007'', ''7'']"
    using arg_cong [OF example_string_tables, of "\<lambda>xs. xs ! 0"] len by (simp add: nth_map)
  have "index_of ''main'' (thread_stringTable (?ts ! 0)) = Some 3"
    by (simp add: s0)
  with pushThreadsInProfile_string_index [OF m0 m1, of "''main''"] m0 m1
  show ?thesis by simp
qed



lemma addr_ok_extend:
  "addr_ok \<lparr> t_func = f, t_frame = fr, t_strings = tab, t_funcKeyToIndex = a, t_frameKeyToIndex = b \<rparr> xs \<Longrightarrow>
   addr_ok \<lparr> t_func = f', t_frame = fr, t_strings = tab @ ys, t_funcKeyToIndex = a', t_frameKeyToIndex = b' \<rparr> xs"
  by (auto simp: addr_ok_def nth_append)







subsection \<open>The sample store\<close>

lemma length_le_bytes [simp]: "length (le_bytes n v) = n"
  by (induction n arbitrary: v) auto

lemma le_nat_le_bytes: "le_nat (le_bytes n v) = v mod 256 ^ n"
proof (induction n arbitrary: v)
  case 0
  then show ?case by simp
next
  case (Suc n)
  have "unat (of_nat (v mod 256) :: byte) = v mod 256"
    by (simp add: unat_of_nat)
  then show ?case
    using Suc [of "v div 256"]
    by (simp add: mod_mult2_eq)
qed

lemma readBytes_field:
  assumes "view r = pre @ le_bytes n v @ post" and "bytePos r = int (length pre)"
  shows "readBytes n r = Inr (v mod 256 ^ n, r \<lparr> bytePos := int (length pre) + int n \<rparr>)"
  using assms by (simp add: readBytes_def le_nat_le_bytes)

lemma readBytes_field_small:
  assumes "view r = pre @ le_bytes n v @ post" and "bytePos r = int (length pre)" and "v < 256 ^ n"
  shows "readBytes n r = Inr (v, r \<lparr> bytePos := int (length pre) + int n \<rparr>)"
  using readBytes_field [OF assms(1,2)] assms(3) by simp

lemma readSamples_records:
  assumes S: "14 \<le> S"
    and recs: "\<forall>(s, pad) \<in> set recs. length pad = S - 14 \<and> 0 < timestamp s \<and>
        timestamp s < 2 ^ 48 \<and> threadID s < 2 ^ 32 \<and> backtraceID s < 2 ^ 32"
  shows "readSamples S
      \<lparr> view = pre @ concat (map (\<lambda>(s, pad). record_bytes s pad) recs) @ le_bytes 6 0 @ rest,
        bytePos = int (length pre) \<rparr> acc = Some (Inr (acc @ map fst recs))"
  using recs
proof (induction recs arbitrary: pre acc)
  case Nil
  let ?r = "\<lparr> view = pre @ le_bytes 6 0 @ rest, bytePos = int (length pre) \<rparr>"
  have "readUint48 ?r = Inr (0, ?r \<lparr> bytePos := int (length pre) + int 6 \<rparr>)"
    unfolding readUint48_def
    by (rule readBytes_field_small) simp_all
  then show ?case
    by (subst readSamples.simps) simp
next
  case (Cons rec recs)
  obtain s pad where rec: "rec = (s, pad)" by (cases rec)
  from Cons.prems rec have pad: "length pad = S - 14" and ts: "0 < timestamp s" "timestamp s < 2 ^ 48"
    and tid: "threadID s < 2 ^ 32" and bid: "backtraceID s < 2 ^ 32"
    by auto
  let ?tail = "concat (map (\<lambda>(s, pad). record_bytes s pad) recs) @ le_bytes 6 0 @ rest"
  let ?v = "pre @ record_bytes s pad @ ?tail"
  let ?r = "\<lparr> view = ?v, bytePos = int (length pre) \<rparr>"
  have v: "pre @ concat (map (\<lambda>(s, pad). record_bytes s pad) (rec # recs)) @ le_bytes 6 0 @ rest = ?v"
    by (simp add: rec)
  have rb: "record_bytes s pad =
      le_bytes 6 (timestamp s) @ le_bytes 4 (threadID s) @ pad @ le_bytes 4 (backtraceID s)"
    by (simp add: record_bytes_def)
  have r1: "readUint48 ?r = Inr (timestamp s, ?r \<lparr> bytePos := int (length pre) + int 6 \<rparr>)"
    unfolding readUint48_def
    by (rule readBytes_field_small [where post = "le_bytes 4 (threadID s) @ pad @ le_bytes 4 (backtraceID s) @ ?tail"])
       (use ts in \<open>simp_all add: rb\<close>)
  let ?r1 = "?r \<lparr> bytePos := int (length pre) + int 6 \<rparr>"
  have r2: "readUint32 ?r1 = Inr (threadID s, ?r1 \<lparr> bytePos := int (length (pre @ le_bytes 6 (timestamp s))) + int 4 \<rparr>)"
    unfolding readUint32_def
    by (rule readBytes_field_small [where post = "pad @ le_bytes 4 (backtraceID s) @ ?tail"])
       (use tid in \<open>simp_all add: rb\<close>)
  let ?r2 = "?r1 \<lparr> bytePos := int (length (pre @ le_bytes 6 (timestamp s))) + int 4 \<rparr>"
  let ?r2s = "skip ?r2 (int S - 6 - 4 - 4)"
  have r3: "readUint32 ?r2s = Inr (backtraceID s, ?r2s \<lparr> bytePos := int (length (pre @ le_bytes 6 (timestamp s) @ le_bytes 4 (threadID s) @ pad)) + int 4 \<rparr>)"
    unfolding readUint32_def
    by (rule readBytes_field_small [where post = "?tail"])
       (use S pad bid in \<open>simp_all add: rb skip_def\<close>)
  have r3': "?r2s \<lparr> bytePos := int (length (pre @ le_bytes 6 (timestamp s) @ le_bytes 4 (threadID s) @ pad)) + int 4 \<rparr>
      = \<lparr> view = (pre @ record_bytes s pad) @ ?tail, bytePos = int (length (pre @ record_bytes s pad)) \<rparr>"
    by (simp add: skip_def rb)
  have s: "\<lparr> timestamp = timestamp s, threadID = threadID s, backtraceID = backtraceID s \<rparr> = s"
    by simp
  have IH: "readSamples S \<lparr> view = (pre @ record_bytes s pad) @ ?tail, bytePos = int (length (pre @ record_bytes s pad)) \<rparr> (acc @ [s])
     = Some (Inr ((acc @ [s]) @ map fst recs))"
    using Cons.IH [of "pre @ record_bytes s pad" "acc @ [s]"] Cons.prems by simp
  show ?case
    unfolding v
    apply (subst readSamples.simps)
    apply (simp only: r1 r2 r3 r3' sum.case prod.case s)
    using ts IH by (simp add: rec)
qed

lemma readBytes_any:
  assumes "0 \<le> bytePos r" and "bytePos r + int n \<le> int (length (view r))"
  shows "\<exists>v. readBytes n r = Inr (v, r \<lparr> bytePos := bytePos r + int n \<rparr>)"
  using assms by (simp add: readBytes_def)

lemma readBulkstore_layout:
  assumes pre: "length pre = 12" and H: "H = 20 + length fill" "H < 2 ^ 32"
    and S: "S < 2 ^ 32" "14 \<le> S"
    and recs: "\<forall>(s, pad) \<in> set recs. length pad = S - 14 \<and> 0 < timestamp s \<and>
        timestamp s < 2 ^ 48 \<and> threadID s < 2 ^ 32 \<and> backtraceID s < 2 ^ 32"
  shows "readBulkstore (pre @ le_bytes 4 H @ le_bytes 4 S @ fill @
           concat (map (\<lambda>(s, pad). record_bytes s pad) recs) @ le_bytes 6 0 @ rest) =
         Some (Inr (map fst recs))"
proof -
  let ?tail = "concat (map (\<lambda>(s, pad). record_bytes s pad) recs) @ le_bytes 6 0 @ rest"
  let ?buf = "pre @ le_bytes 4 H @ le_bytes 4 S @ fill @ ?tail"
  let ?r = "\<lambda>p. \<lparr> view = ?buf, bytePos = p \<rparr>"
  obtain v1 where r1: "readUint32 (newBinReader ?buf) = Inr (v1, ?r 4)"
    using readBytes_any [of "newBinReader ?buf" 4] pre
    by (auto simp: readUint32_def newBinReader_def)
  obtain v2 where r2: "readUint32 (?r 4) = Inr (v2, ?r 8)"
    using readBytes_any [of "?r 4" 4] pre
    by (auto simp: readUint32_def)
  obtain v3 where r3: "readUint32 (?r 8) = Inr (v3, ?r 12)"
    using readBytes_any [of "?r 8" 4] pre
    by (auto simp: readUint32_def)
  have r4: "readUint32 (?r 12) = Inr (H, ?r 16)"
    using readBytes_field_small [of "?r 12" pre 4 H "le_bytes 4 S @ fill @ ?tail"] pre H
    by (simp add: readUint32_def)
  have r5: "readUint32 (?r 16) = Inr (S, ?r 20)"
    using readBytes_field_small [of "?r 16" "pre @ le_bytes 4 H" 4 S "fill @ ?tail"] pre S
    by (simp add: readUint32_def)
  have sk: "seek (?r 20) (int H) =
      \<lparr> view = (pre @ le_bytes 4 H @ le_bytes 4 S @ fill) @ ?tail,
        bytePos = int (length (pre @ le_bytes 4 H @ le_bytes 4 S @ fill)) \<rparr>"
    using pre H by (simp add: seek_def)
  have loop: "readSamples S (seek (?r 20) (int H)) [] = Some (Inr ([] @ map fst recs))"
    unfolding sk using S(2) recs by (rule readSamples_records)
  show ?thesis
    unfolding readBulkstore_def
    by (simp only: r1 r2 r3 r4 r5 sum.case prod.case loop append_Nil)
qed

text \<open>
  C4, as amended. The bulkstore reader passes over three words, reads the header size
  and the stride as the fourth and the fifth word, goes to the header size, and reads
  records of one stride each until a timestamp of zero: the timestamp in 6 bytes, the
  thread id in the 4 bytes behind it, and the backtrace id in the last 4 bytes of the
  record. A bulkstore of this layout with any number of records (two among them) gives
  the samples of the records, in their order, and nothing else.
\<close>

theorem getRawSampleList_bulkstore:
  assumes "map_get (subdirectories core) ''stores'' = Some stores"
    and "subdirectories stores = (n, storedir) # others"
    and "map_get (files storedir) ''schema.xml'' = Some schema"
    and "contains ''name=\"time-profile\"'' (asText schema)"
    and "map_get (files storedir) ''bulkstore'' =
           Some (pre @ le_bytes 4 H @ le_bytes 4 S @ fill @
             concat (map (\<lambda>(s, pad). record_bytes s pad) recs) @ le_bytes 6 0 @ rest)"
    and "length pre = 12" and "H = 20 + length fill" and "H < 2 ^ 32"
    and "S < 2 ^ 32" and "14 \<le> S"
    and "\<forall>(s, pad) \<in> set recs. length pad = S - 14 \<and> 0 < timestamp s \<and>
        timestamp s < 2 ^ 48 \<and> threadID s < 2 ^ 32 \<and> backtraceID s < 2 ^ 32"
  shows "getRawSampleList core = Some (Inr (map fst recs))"
  using assms(1-5) readBulkstore_layout [OF assms(6-11)]
  by (simp add: getRawSampleList_def getOrThrow_def)

lemma example_schema: "contains ''name=\"time-profile\"'' (asText example_schema_bytes)"
  by code_simp


theorem getRawSampleList_bulkstore_witness:
  "getRawSampleList (example_core bulkstore_three_words) = Some (Inr example_raw_samples)"
proof -
  let ?schema = "example_schema_bytes"
  let ?storedir = "TraceDirectoryTree ''indexed-store-0''
     [(''schema.xml'', ?schema), (''bulkstore'', bulkstore_three_words)] []"
  let ?stores = "TraceDirectoryTree ''stores'' [] [(''indexed-store-0'', ?storedir)]"
  let ?recs = "[(\<lparr> timestamp = 1000, threadID = 7, backtraceID = 3 \<rparr>, [255, 255 :: byte]),
    (\<lparr> timestamp = 2000, threadID = 8, backtraceID = 4 \<rparr>, [255, 255])]"
  have p1: "map_get (subdirectories (example_core bulkstore_three_words)) ''stores'' = Some ?stores"
    by (simp add: example_core_def map_get_def)
  have p2: "subdirectories ?stores = (''indexed-store-0'', ?storedir) # []"
    by simp
  have p3: "map_get (files ?storedir) ''schema.xml'' = Some ?schema"
    by (simp add: map_get_def)
  have p4: "contains ''name=\"time-profile\"'' (asText ?schema)"
    by (rule example_schema)
  have p5: "map_get (files ?storedir) ''bulkstore'' =
      Some ((le_bytes 4 1 @ le_bytes 4 2 @ le_bytes 4 3) @ le_bytes 4 20 @ le_bytes 4 16 @ [] @
        concat (map (\<lambda>(s, pad). record_bytes s pad) ?recs) @ le_bytes 6 0 @ [])"
    by (simp add: map_get_def bulkstore_three_words_def example_records_def)
  have p6: "\<forall>(s, pad) \<in> set ?recs. length pad = 16 - 14 \<and> 0 < timestamp s \<and>
      timestamp s < 2 ^ 48 \<and> threadID s < 2 ^ 32 \<and> backtraceID s < 2 ^ 32"
    by simp
  have "getRawSampleList (example_core bulkstore_three_words) = Some (Inr (map fst ?recs))"
    by (rule getRawSampleList_bulkstore [OF p1 p2 p3 p4 p5 _ _ _ _ _ p6]) simp_all
  then show ?thesis
    by (simp add: example_raw_samples_def)
qed

text \<open>
  The claim as it is stated puts a fourth ignored word before the header size. On a
  bulkstore of that layout the importer takes the fourth word for the header size and
  the header size for the stride, and does not find the two samples.
\<close>

theorem getRawSampleList_four_words:
  "getRawSampleList (example_core bulkstore_four_words) \<noteq> Some (Inr example_raw_samples)"
  by code_simp

subsection \<open>The array store\<close>

lemma readBytes_at:
  "p + n \<le> length bs \<Longrightarrow>
   readBytes n \<lparr> view = bs, bytePos = int p \<rparr> =
     Inr (le_nat (take n (drop p bs)), \<lparr> view = bs, bytePos = int (p + n) \<rparr>)"
  by (simp add: readBytes_def)

lemma readArray_elements:
  "off + 8 * n \<le> length data \<Longrightarrow>
   readArray n \<lparr> view = data, bytePos = int off \<rparr> acc =
     Inr (acc @ map (\<lambda>i. le_nat (take 8 (drop (off + 8 * i) data))) [0..<n],
          \<lparr> view = data, bytePos = int (off + 8 * n) \<rparr>)"
proof (induction n arbitrary: off acc)
  case 0
  then show ?case by simp
next
  case (Suc n)
  have rd: "readUint64 \<lparr> view = data, bytePos = int off \<rparr> =
      Inr (le_nat (take 8 (drop off data)), \<lparr> view = data, bytePos = int (off + 8) \<rparr>)"
    using Suc.prems by (simp add: readUint64_def readBytes_def)
  have "off + 8 + 8 * n \<le> length data" using Suc.prems by simp
  from Suc.IH [OF this, of "acc @ [le_nat (take 8 (drop off data))]"]
  show ?case
    by (simp add: rd map_upt_Suc add.assoc del: upt_Suc)
qed

lemma index_pairs_short: "length bs < 8 \<Longrightarrow> index_pairs bs = []"
  by (simp add: index_pairs.simps)

lemma readArrays_spec:
  assumes "length index = p + 8 * k"
    and "\<forall>off \<in> set (filter (\<lambda>byteOffset. byteOffset \<noteq> 0)
            (map (\<lambda>(lo, hi). lo + hi * 1048576) (index_pairs (drop p index)))). array_fits data off"
  shows "readArrays \<lparr> view = index, bytePos = int p \<rparr> \<lparr> view = data, bytePos = q \<rparr> acc =
     Inr (acc @ map (array_at data) (filter (\<lambda>byteOffset. byteOffset \<noteq> 0)
            (map (\<lambda>(lo, hi). lo + hi * 1048576) (index_pairs (drop p index)))))"
  using assms
proof (induction k arbitrary: p q acc)
  case 0
  then have "\<not> hasMore \<lparr> view = index, bytePos = int p \<rparr>"
    by (simp add: hasMore_def)
  moreover have "index_pairs (drop p index) = []"
    using 0 by (simp add: index_pairs_short)
  ultimately show ?case
    by (subst readArrays.simps) simp
next
  case (Suc k)
  let ?bs = "drop p index"
  let ?lo = "le_nat (take 4 ?bs)"
  let ?hi = "le_nat (take 4 (drop 4 ?bs))"
  let ?off = "?lo + ?hi * 1048576"
  let ?R = "\<lparr> view = index, bytePos = int p \<rparr>"
  let ?R1 = "\<lparr> view = index, bytePos = int p + 4 \<rparr>"
  let ?R2 = "\<lparr> view = index, bytePos = int (p + 8) \<rparr>"
  let ?D = "\<lparr> view = data, bytePos = q \<rparr>"
  have len: "length index = p + 8 + 8 * k" using Suc.prems(1) by simp
  have more: "hasMore ?R"
    using len by (simp add: hasMore_def)
  have r1: "readUint32 ?R = Inr (?lo, ?R1)"
    using len by (simp add: readUint32_def readBytes_def)
  have r2: "readUint32 ?R1 = Inr (?hi, ?R2)"
  proof -
    have "nat (int p + 4) = p + 4" by simp
    then show ?thesis
      using len by (simp add: readUint32_def readBytes_def add.commute)
  qed
  have pairs: "index_pairs ?bs = (?lo, ?hi) # index_pairs (drop (p + 8) index)"
    using len by (subst index_pairs.simps) (simp add: add.commute)
  have len': "length index = (p + 8) + 8 * k" using len by simp
  have m: "(1024::nat) * 1024 = 1048576" by simp
  have step: "readArrays ?R ?D acc =
      (if ?off = 0 then readArrays ?R2 ?D acc
       else (case readUint32 (seek ?D (int ?off)) of
               Inl e \<Rightarrow> Inl e
             | Inr (len, d1) \<Rightarrow>
                 (case readArray len d1 [] of
                    Inl e \<Rightarrow> Inl e
                  | Inr (array, d2) \<Rightarrow> readArrays ?R2 d2 (acc @ [array]))))"
    apply (subst readArrays.simps)
    apply (simp only: more not_True_eq_False if_False r1 r2 sum.case prod.case Let_def m)
    done
  show ?case
  proof (cases "?off = 0")
    case True
    have fits': "\<forall>off \<in> set (filter (\<lambda>byteOffset. byteOffset \<noteq> 0)
            (map (\<lambda>(lo, hi). lo + hi * 1048576) (index_pairs (drop (p + 8) index)))). array_fits data off"
      using Suc.prems(2) by (simp add: pairs)
    have "index_pairs ?bs = (?lo, ?hi) # index_pairs (drop (p + 8) index) \<and> ?off = 0"
      using pairs True by simp
    then have f: "filter (\<lambda>byteOffset. byteOffset \<noteq> 0)
            (map (\<lambda>(lo, hi). lo + hi * 1048576) (index_pairs ?bs)) =
          filter (\<lambda>byteOffset. byteOffset \<noteq> 0)
            (map (\<lambda>(lo, hi). lo + hi * 1048576) (index_pairs (drop (p + 8) index)))"
      by simp
    show ?thesis
      unfolding step f using True Suc.IH [OF len' fits', of q acc]
      by simp
  next
    case False
    have fits: "array_fits data ?off"
      and fits': "\<forall>off \<in> set (filter (\<lambda>byteOffset. byteOffset \<noteq> 0)
            (map (\<lambda>(lo, hi). lo + hi * 1048576) (index_pairs (drop (p + 8) index)))). array_fits data off"
      using Suc.prems(2) False by (simp_all add: pairs)
    let ?n = "le_nat (take 4 (drop ?off data))"
    let ?D1 = "\<lparr> view = data, bytePos = int (?off + 4) \<rparr>"
    let ?D2 = "\<lparr> view = data, bytePos = int (?off + 4 + 8 * ?n) \<rparr>"
    have "?off + 4 \<le> length data"
      using fits by (simp add: array_fits_def)
    from readBytes_at [OF this]
    have r3: "readUint32 (seek ?D (int ?off)) = Inr (?n, ?D1)"
      by (simp only: readUint32_def seek_def BinReader.simps BinReader.update_convs)
    have "?off + 4 + 8 * ?n \<le> length data"
      using fits by (simp add: array_fits_def)
    from readArray_elements [OF this, of "[]"]
    have r4: "readArray ?n ?D1 [] = Inr (array_at data ?off, ?D2)"
      by (simp add: array_at_def)
    have f: "filter (\<lambda>byteOffset. byteOffset \<noteq> 0)
            (map (\<lambda>(lo, hi). lo + hi * 1048576) (index_pairs ?bs)) =
          ?off # filter (\<lambda>byteOffset. byteOffset \<noteq> 0)
            (map (\<lambda>(lo, hi). lo + hi * 1048576) (index_pairs (drop (p + 8) index)))"
      using False by (simp add: pairs)
    have "readArrays ?R ?D acc = readArrays ?R2 ?D2 (acc @ [array_at data ?off])"
      unfolding step using False
      by (simp only: if_False r3 r4 sum.case prod.case)
    also have "\<dots> = Inr ((acc @ [array_at data ?off]) @ map (array_at data)
          (filter (\<lambda>byteOffset. byteOffset \<noteq> 0)
            (map (\<lambda>(lo, hi). lo + hi * 1048576) (index_pairs (drop (p + 8) index)))))"
      by (rule Suc.IH [OF len' fits'])
    finally show ?thesis
      unfolding f by simp
  qed
qed

lemma integerArrays_spec:
  assumes "(length index - 32) mod 8 = 0"
    and "\<forall>off \<in> set (index_offsets index). array_fits data off"
  shows "integerArrays index data = Inr (map (array_at data) (index_offsets index))"
proof (cases "32 \<le> length index")
  case True
  from assms(1) have "8 dvd (length index - 32)"
    by (simp add: mod_eq_0_iff_dvd)
  then obtain k where "length index - 32 = 8 * k"
    by (auto elim: dvdE)
  with True have "length index = 32 + 8 * k"
    by simp
  from readArrays_spec [OF this, of data 0 "[]"] assms(2) show ?thesis
    by (simp add: integerArrays_def index_offsets_def seek_def newBinReader_def)
next
  case False
  then have "\<not> hasMore (seek (newBinReader index) 32)"
    by (simp add: hasMore_def seek_def newBinReader_def)
  moreover have "index_offsets index = []"
    using False by (simp add: index_offsets_def index_pairs_short)
  ultimately show ?thesis
    by (simp add: integerArrays_def readArrays.simps)
qed

text \<open>
  C5. \<open>getIntegerArrays\<close> reads the index file as a header of 32 bytes and pairs of
  32-bit words \<open>(low, high)\<close> behind it, takes \<open>low + high * 1048576\<close> as an offset into
  the data file, passes over the pairs whose offset is 0, and for every other pair, in
  the order of the index, reads at the offset a 32-bit count and that many 64-bit
  little-endian integers: the result is one array for each non-zero entry of the index.
  (The index holds whole pairs and every array lies within the data file; a read that
  does not fit fails.)
\<close>

theorem getIntegerArrays_layout:
  assumes "map_get (subdirectories core) ''uniquing'' = Some uniquing"
    and "map_get (subdirectories uniquing) ''arrayUniquer'' = Some arrayUniquer"
    and "map_get (files arrayUniquer) ''integeruniquer.index'' = Some index"
    and "map_get (files arrayUniquer) ''integeruniquer.data'' = Some data"
    and "(length index - 32) mod 8 = 0"
    and "\<forall>off \<in> set (index_offsets index). array_fits data off"
  shows "getIntegerArrays smpls core = Inr (map (array_at data) (index_offsets index))"
  using assms(1-4) integerArrays_spec [OF assms(5,6)]
  by (simp add: getIntegerArrays_def getOrThrow_def)

lemma example_index_offsets: "index_offsets example_index = [32, 52]"
  by (simp add: index_offsets_def example_index_def index_pairs.simps le_nat_le_bytes)

lemma example_arrays: "map (array_at example_data) [32, 52] = [[5, 7], [9]]"
  by (simp add: array_at_def example_data_def le_nat_le_bytes upt_conv_Cons)


theorem getIntegerArrays_layout_witness:
  "getIntegerArrays [] (TraceDirectoryTree ''core'' [] [(''uniquing'', example_uniquing)]) =
     Inr [[5, 7], [9]]"
proof -
  let ?au = "TraceDirectoryTree ''arrayUniquer''
      [(''integeruniquer.index'', example_index), (''integeruniquer.data'', example_data)] []"
  have p1: "map_get (subdirectories (TraceDirectoryTree ''core'' [] [(''uniquing'', example_uniquing)]))
      ''uniquing'' = Some example_uniquing"
    by (simp add: map_get_def)
  have p2: "map_get (subdirectories example_uniquing) ''arrayUniquer'' = Some ?au"
    by (simp add: map_get_def example_uniquing_def)
  have p3: "map_get (files ?au) ''integeruniquer.index'' = Some example_index"
    by (simp add: map_get_def)
  have p4: "map_get (files ?au) ''integeruniquer.data'' = Some example_data"
    by (simp add: map_get_def)
  have p5: "(length example_index - 32) mod 8 = 0"
    by (simp add: example_index_def)
  have p6: "\<forall>off \<in> set (index_offsets example_index). array_fits example_data off"
    unfolding example_index_offsets
    by (simp add: array_fits_def example_data_def le_nat_le_bytes)
  show ?thesis
    using getIntegerArrays_layout [OF p1 p2 p3 p4 p5 p6, of "[]"]
    by (simp only: example_index_offsets example_arrays)
qed

subsection \<open>Backtraces\<close>



lemma map_get_None_known: "map_get m k = None \<longleftrightarrow> \<not> known m k"
  by (simp add: known_def)






lemma register_known: "known m k \<Longrightarrow> register m [k] = m"
  by (simp add: map_get_None_known)








lemma spec_resolve_mono:
  "spec_resolve n kn arrays k = Some ks \<Longrightarrow> spec_resolve (Suc n) kn arrays k = Some ks"
  "spec_resolve_each n kn arrays as = Some ks \<Longrightarrow> spec_resolve_each (Suc n) kn arrays as = Some ks"
proof (induction n kn arrays k and n kn arrays as arbitrary: ks and ks rule: spec_resolve_spec_resolve_each.induct)
  case (1 known arrays k)
  then show ?case by simp
next
  case (2 depth known arrays k)
  then show ?case by (auto split: if_splits)
next
  case (3 depth known arrays)
  then show ?case by simp
next
  case (4 depth known arrays addr rest)
  then show ?case by (auto split: option.splits simp del: spec_resolve.simps(2))
qed






subsection \<open>The frames of all threads\<close>







subsection \<open>Decimal numbers\<close>







end
